theory Spec2Isabelle
  imports Main
begin

section \<open>Strings: the library calls of \<open>findRoute\<close>\<close>

text \<open>
  Go strings are byte sequences; \<open>string\<close> (a \<open>char list\<close>) models them byte for byte.
  \<open>strings.HasPrefix\<close>, \<open>strings.TrimPrefix\<close> and \<open>strings.SplitN\<close> belong to Go's
  standard library; they are modelled after its implementation. \<open>SplitN\<close> is only ever
  called with the one-byte separator \<open>"/"\<close>, so the separator is a \<open>char\<close> here (the
  library's branch for an empty separator cannot be reached).
\<close>

definition HasPrefix :: "string \<Rightarrow> string \<Rightarrow> bool" where
  "HasPrefix s p = (length s \<ge> length p \<and> take (length p) s = p)"

definition TrimPrefix :: "string \<Rightarrow> string \<Rightarrow> string" where
  "TrimPrefix s p = (if HasPrefix s p then drop (length p) s else s)"

text \<open>\<open>strings.Index\<close> for a one-byte needle: \<open>None\<close> stands for the library's \<open>-1\<close>.\<close>

fun IndexByte :: "string \<Rightarrow> char \<Rightarrow> nat option" where
  "IndexByte [] c = None"
| "IndexByte (x # xs) c = (if x = c then Some 0 else map_option Suc (IndexByte xs c))"

text \<open>
  The loop of \<open>genSplit\<close>: \<open>k\<close> is the number of iterations still allowed (\<open>n - 1 - i\<close>);
  the loop stops early when the separator no longer occurs, and the rest of the string is
  the last element.
\<close>

fun genSplit_loop :: "string \<Rightarrow> char \<Rightarrow> nat \<Rightarrow> string list" where
  "genSplit_loop s sep 0 = [s]"
| "genSplit_loop s sep (Suc k) =
     (case IndexByte s sep of
        None \<Rightarrow> [s]
      | Some m \<Rightarrow> take m s # genSplit_loop (drop (m + 1) s) sep k)"

definition SplitN :: "string \<Rightarrow> char \<Rightarrow> int \<Rightarrow> string list" where
  "SplitN s sep n =
     (if n = 0 then []
      else
        let n1 = (if n < 0 then int (count_list s sep) + 1 else n);
            n2 = (if n1 > int (length s) + 1 then int (length s) + 1 else n1)
        in genSplit_loop s sep (nat (n2 - 1)))"

section \<open>The route table and \<open>findRoute\<close>\<close>

text \<open>
  The global \<open>routes\<close> is a Go \<open>map[string]string\<close>: a partial map from the first path
  segment to the upstream path fragment. \<open>findRoute\<close> is the same function in
  \<open>main.go\<close>, \<open>part_001\<close> and \<open>part_002\<close>; it reads the table under the read lock, which
  the model renders by passing the table in. The result is the triple
  (mapped path, remaining path, found).
\<close>

type_synonym route_table = "string \<rightharpoonup> string"

definition findRoute :: "route_table \<Rightarrow> string \<Rightarrow> string \<times> string \<times> bool" where
  "findRoute routes path =
     (let parts = SplitN (TrimPrefix path ''/'') CHR ''/'' 2 in
      if length parts < 1 then ('''', '''', False)
      else
        let prefix = parts ! 0 in
        case routes prefix of
          Some route \<Rightarrow>
            let remainingPath = (if length parts > 1 then parts ! 1 else '''')
            in (route, remainingPath, True)
        | None \<Rightarrow> ('''', '''', False))"

subsection \<open>The lookup contract in the specification's words\<close>

text \<open>
  The specification speaks of the first segment of a path (after one leading slash is
  stripped) and of the remainder: everything after the separator that follows the first
  segment, or the empty string when there is no separator.
\<close>

definition strip_leading_slash :: "string \<Rightarrow> string" where
  "strip_leading_slash p = (case p of [] \<Rightarrow> [] | c # cs \<Rightarrow> if c = CHR ''/'' then cs else p)"

definition first_segment :: "string \<Rightarrow> string" where
  "first_segment p = takeWhile (\<lambda>c. c \<noteq> CHR ''/'') (strip_leading_slash p)"

definition remainder_after_segment :: "string \<Rightarrow> string" where
  "remainder_after_segment p = drop 1 (dropWhile (\<lambda>c. c \<noteq> CHR ''/'') (strip_leading_slash p))"

definition lookup_spec :: "route_table \<Rightarrow> string \<Rightarrow> string \<times> string \<times> bool" where
  "lookup_spec routes p =
     (case routes (first_segment p) of
        Some target \<Rightarrow> (target, remainder_after_segment p, True)
      | None \<Rightarrow> ('''', '''', False))"

section \<open>Reloading the route table\<close>

text \<open>
  \<open>loadRoutes\<close> is the same function in the three variants (only the log line differs).
  It reads and writes the globals \<open>routes\<close> and \<open>lastMod\<close>; the model passes them in and
  returns them. A \<open>time.Time\<close> is an instant, modelled as an integer count of nanoseconds;
  \<open>After\<close> is the strict order on instants. Go \<open>error\<close> values are opaque to the program:
  it only tests them against \<open>nil\<close> and passes them on.
\<close>

type_synonym time = int

definition After :: "time \<Rightarrow> time \<Rightarrow> bool" where
  "After t u = (t > u)"

datatype error = Error string

record globals =
  routes :: route_table
  lastMod :: time

text \<open>
  What the operating system answers for \<open>routes.json\<close> at the moment of one call:
  \<open>os.Stat\<close> gives an error or the modification time, \<open>ioutil.ReadFile\<close> an error or the
  bytes of the file. \<open>json.Unmarshal\<close> into the \<open>config\<close> struct is a parameter of the
  model: a function from the bytes to an error or the decoded \<open>Routes\<close> map.
\<close>

record source_file =
  stat_result :: "error + time"
  read_result :: "error + string"

type_synonym unmarshal = "string \<Rightarrow> error + route_table"

text \<open>
  The library calls a run of \<open>loadRoutes\<close> makes, in order; \<open>Unmarshal ok\<close> records whether
  the parse returned without error.
\<close>

datatype io_event = Stat | ReadFile | Unmarshal bool

definition loadRoutes ::
  "unmarshal \<Rightarrow> source_file \<Rightarrow> globals \<Rightarrow> error option \<times> globals \<times> io_event list" where
  "loadRoutes json_Unmarshal src g =
     (case stat_result src of
        Inl e \<Rightarrow> (Some e, g, [Stat])
      | Inr modTime \<Rightarrow>
          if \<not> After modTime (lastMod g) then (None, g, [Stat])
          else
            (case read_result src of
               Inl e \<Rightarrow> (Some e, g, [Stat, ReadFile])
             | Inr file \<Rightarrow>
                 (case json_Unmarshal file of
                    Inl e \<Rightarrow> (Some e, g, [Stat, ReadFile, Unmarshal False])
                  | Inr config_Routes \<Rightarrow>
                      (None, g\<lparr>routes := config_Routes, lastMod := modTime\<rparr>,
                       [Stat, ReadFile, Unmarshal True]))))"

text \<open>
  \<open>startRouteReloader\<close>: one call of \<open>loadRoutes\<close> per tick; an error is logged and
  otherwise ignored. The ticks are the list of what the file system answers at each one.
\<close>

fun reload_cycles :: "unmarshal \<Rightarrow> source_file list \<Rightarrow> globals \<Rightarrow> globals \<times> io_event list" where
  "reload_cycles json_Unmarshal [] g = (g, [])"
| "reload_cycles json_Unmarshal (src # ticks) g =
     (case loadRoutes json_Unmarshal src g of
        (err, g', calls) \<Rightarrow>
          (case reload_cycles json_Unmarshal ticks g' of
             (g'', calls') \<Rightarrow> (g'', calls @ calls')))"

section \<open>Joining paths\<close>

text \<open>
  The Director builds the upstream path with \<open>filepath.Join\<close> of Go's standard library.
  The model follows the Unix implementation: \<open>Join\<close> drops leading empty elements,
  glues the rest with \<open>"/"\<close> and applies \<open>Clean\<close>. \<open>Clean\<close> scans the path element by
  element and writes into an output buffer: an empty element and a \<open>"."\<close> element are
  skipped, a \<open>".."\<close> element removes the last element written (never the leading slash
  of a rooted path), any other element is copied behind a single separator.
\<close>

fun strings_Join :: "string list \<Rightarrow> string \<Rightarrow> string" where
  "strings_Join [] sep = []"
| "strings_Join [e] sep = e"
| "strings_Join (e # es) sep = e @ sep @ strings_Join es sep"

text \<open>
  The backtracking of a \<open>".."\<close> element: from the last byte written, the write index
  moves back to the last separator, or to \<open>dotdot\<close>, which it never passes.
\<close>

fun backtrack_w :: "string \<Rightarrow> nat \<Rightarrow> nat \<Rightarrow> nat" where
  "backtrack_w out dotdot 0 = 0"
| "backtrack_w out dotdot (Suc w) =
     (if Suc w > dotdot \<and> out ! Suc w \<noteq> CHR ''/'' then backtrack_w out dotdot w else Suc w)"

definition backtrack :: "string \<Rightarrow> nat \<Rightarrow> string" where
  "backtrack out dotdot = take (backtrack_w out dotdot (length out - 1)) out"

function Clean_loop :: "bool \<Rightarrow> string \<Rightarrow> nat \<Rightarrow> string \<Rightarrow> string" where
  "Clean_loop rooted out dotdot [] = out"
| "Clean_loop rooted out dotdot (c # cs) =
     (if c = CHR ''/'' then Clean_loop rooted out dotdot cs
      else if c = CHR ''.'' \<and> (case cs of [] \<Rightarrow> True | d # ds \<Rightarrow> d = CHR ''/'')
        then Clean_loop rooted out dotdot cs
      else if c = CHR ''.'' \<and>
              (case cs of [] \<Rightarrow> False
               | d # ds \<Rightarrow> d = CHR ''.'' \<and> (case ds of [] \<Rightarrow> True | e # es \<Rightarrow> e = CHR ''/''))
        then
          (if length out > dotdot then Clean_loop rooted (backtrack out dotdot) dotdot (tl cs)
           else if \<not> rooted then
             (let out' = (if length out > 0 then out @ ''/'' else out) @ ''..''
              in Clean_loop rooted out' (length out') (tl cs))
           else Clean_loop rooted out dotdot (tl cs))
      else
        (let out' = (if rooted \<and> length out \<noteq> 1 \<or> \<not> rooted \<and> length out \<noteq> 0
                     then out @ ''/'' else out)
         in Clean_loop rooted (out' @ c # takeWhile (\<lambda>x. x \<noteq> CHR ''/'') cs) dotdot
              (dropWhile (\<lambda>x. x \<noteq> CHR ''/'') cs)))"
  by pat_completeness auto
termination
  by (relation "measure (\<lambda>(rooted, out, dotdot, rest). length rest)")
     (auto simp: le_imp_less_Suc length_dropWhile_le split: list.splits)

definition Clean :: "string \<Rightarrow> string" where
  "Clean path =
     (case path of
        [] \<Rightarrow> ''.''
      | c # cs \<Rightarrow>
          let rooted = (c = CHR ''/'');
              out = Clean_loop rooted (if rooted then ''/'' else []) (if rooted then 1 else 0)
                      (if rooted then cs else path)
          in if out = [] then ''.'' else out)"

fun Join :: "string list \<Rightarrow> string" where
  "Join [] = []"
| "Join (e # es) = (if e \<noteq> [] then Clean (strings_Join (e # es) ''/'') else Join es)"

text \<open>
  What the specification asks of the joined path, as a predicate on the result: it starts
  with a slash, holds no two slashes in a row, and does not end in a slash unless it is
  the root \<open>"/"\<close> itself.
\<close>

fun has_double_slash :: "string \<Rightarrow> bool" where
  "has_double_slash [] = False"
| "has_double_slash [c] = False"
| "has_double_slash (a # b # cs) = ((a = CHR ''/'' \<and> b = CHR ''/'') \<or> has_double_slash (b # cs))"

definition clean_rooted :: "string \<Rightarrow> bool" where
  "clean_rooted p =
     (case p of
        [] \<Rightarrow> False
      | c # cs \<Rightarrow> c = CHR ''/'' \<and> (cs = [] \<or> last cs \<noteq> CHR ''/'') \<and> \<not> has_double_slash p)"

subsection \<open>The joined path in the specification's words\<close>

text \<open>
  The specification's \<open>join("/", targetSegment, remainder)\<close>, written without reference to
  \<open>Clean\<close>. A string is split at every slash and the empty pieces are dropped: these are
  its path elements. The elements of the target are followed by those of the remainder.
  A \<open>"."\<close> element is dropped, a \<open>".."\<close> element removes the element before it (and is
  dropped when there is none: the path is rooted). The result is the root slash when no
  element is left, and otherwise every element preceded by one slash.
\<close>

fun split_slash :: "string \<Rightarrow> string list" where
  "split_slash [] = [[]]"
| "split_slash (c # cs) =
     (if c = CHR ''/'' then [] # split_slash cs
      else (c # hd (split_slash cs)) # tl (split_slash cs))"

definition path_elements :: "string \<Rightarrow> string list" where
  "path_elements s = filter (\<lambda>e. e \<noteq> []) (split_slash s)"

fun resolve_dots :: "string list \<Rightarrow> string list \<Rightarrow> string list" where
  "resolve_dots kept [] = kept"
| "resolve_dots kept (e # es) =
     (if e = ''.'' then resolve_dots kept es
      else if e = ''..'' then resolve_dots (butlast kept) es
      else resolve_dots (kept @ [e]) es)"

definition rooted_path :: "string list \<Rightarrow> string" where
  "rooted_path es = (if es = [] then ''/'' else concat (map (\<lambda>e. CHR ''/'' # e) es))"

definition lexical_join :: "string \<Rightarrow> string \<Rightarrow> string" where
  "lexical_join target remainder =
     rooted_path (resolve_dots [] (path_elements target @ path_elements remainder))"

text \<open>
  While \<open>Clean\<close> runs, the elements it has kept: none is empty and none holds a slash.
\<close>

definition plain_elements :: "string list \<Rightarrow> bool" where
  "plain_elements es = list_all (\<lambda>e. e \<noteq> [] \<and> CHR ''/'' \<notin> set e) es"

section \<open>Requests, responses and headers\<close>

text \<open>
  An \<open>http.Header\<close> maps a header name to its list of values. \<open>Get\<close> returns the first
  value or the empty string, \<open>Set\<close> replaces the list by the one value, \<open>Del\<close> removes the
  name. The library canonicalises the name first; every name the program passes is a
  literal already in canonical form, on which canonicalisation is the identity.
\<close>

type_synonym header = "string \<rightharpoonup> string list"

definition Header_Get :: "header \<Rightarrow> string \<Rightarrow> string" where
  "Header_Get h key = (case h key of None \<Rightarrow> [] | Some [] \<Rightarrow> [] | Some (v # vs) \<Rightarrow> v)"

definition Header_Set :: "header \<Rightarrow> string \<Rightarrow> string \<Rightarrow> header" where
  "Header_Set h key v = h(key \<mapsto> [v])"

definition Header_Del :: "header \<Rightarrow> string \<Rightarrow> header" where
  "Header_Del h key = h(key := None)"

text \<open>The fields of \<open>http.Request\<close> (with those of its \<open>URL\<close>) that the program touches.\<close>

record request =
  Method :: string
  URL_Scheme :: string
  URL_Host :: string
  URL_Path :: string
  Host :: string
  Header :: header

text \<open>The fields of \<open>http.Response\<close> that the program touches.\<close>

record response =
  StatusCode :: int
  RespHeader :: header
  ContentLength :: int
  TransferEncoding :: "string list"

text \<open>
  \<open>target\<close> is \<open>url.Parse(targetURL)\<close> for \<open>targetURL = "https://www.xxx.com"\<close>, the same
  constant in the three variants.
\<close>

definition target_Scheme :: string where
  "target_Scheme = ''https''"

definition target_Host :: string where
  "target_Host = ''www.xxx.com''"

text \<open>
  \<open>fixedHeaders\<close> is a Go map; the Director sets each entry. The names are distinct, so
  the order of iteration does not matter; the model applies them in the order written.
  \<open>part_001\<close> differs from \<open>main.go\<close> and \<open>part_002\<close> in the value of \<open>Referer\<close>.
\<close>

definition user_agent :: string where
  "user_agent = ''Mozilla/5.0 (Windows NT 10.0; Win64; x64) AppleWebKit/537.36 (KHTML, like Gecko) Chrome/136.0.0.0 Safari/537.36''"

definition fixedHeaders_main :: "(string \<times> string) list" where
  "fixedHeaders_main =
     [(''Host'', ''www.xxx.com''), (''User-Agent'', user_agent), (''Referer'', ''https://www.xxx.com'')]"

definition fixedHeaders_part001 :: "(string \<times> string) list" where
  "fixedHeaders_part001 =
     [(''Host'', ''www.xxx.com''), (''User-Agent'', user_agent), (''Referer'', ''https://www.xxx.com/'')]"

definition fixedHeaders_part002 :: "(string \<times> string) list" where
  "fixedHeaders_part002 =
     [(''Host'', ''www.xxx.com''), (''User-Agent'', user_agent), (''Referer'', ''https://www.xxx.com'')]"

definition set_headers :: "(string \<times> string) list \<Rightarrow> header \<Rightarrow> header" where
  "set_headers fixed h = fold (\<lambda>(k, v) h'. Header_Set h' k v) fixed h"

section \<open>The Director\<close>

text \<open>
  The Director mutates the outgoing request in place; the model returns the request after
  each assignment. The log line is left out. \<open>main.go\<close> and \<open>part_001\<close> mark an unmatched
  request with \<open>X-Proxy-Invalid\<close> and return.
\<close>

definition Director_main :: "route_table \<Rightarrow> request \<Rightarrow> request" where
  "Director_main tbl req =
     (case findRoute tbl (URL_Path req) of
        (mappedPath, remainingPath, found) \<Rightarrow>
          if \<not> found then req\<lparr>Header := Header_Set (Header req) ''X-Proxy-Invalid'' ''1''\<rparr>
          else
            let req1 = req\<lparr>URL_Scheme := target_Scheme\<rparr>;
                req2 = req1\<lparr>URL_Host := target_Host\<rparr>;
                req3 = req2\<lparr>Host := target_Host\<rparr>;
                newPath = Join [''/'', mappedPath, remainingPath];
                req4 = req3\<lparr>Header := set_headers fixedHeaders_main (Header req3)\<rparr>;
                req5 = req4\<lparr>Header := Header_Del (Header req4) ''Accept-Encoding''\<rparr>;
                req6 = req5\<lparr>Header := Header_Del (Header req5) ''If-Modified-Since''\<rparr>
            in req6\<lparr>URL_Path := newPath\<rparr>)"

text \<open>\<open>part_001\<close> assigns the new path before it sets the headers.\<close>

definition Director_part001 :: "route_table \<Rightarrow> request \<Rightarrow> request" where
  "Director_part001 tbl req =
     (case findRoute tbl (URL_Path req) of
        (mappedPath, remainingPath, found) \<Rightarrow>
          if \<not> found then req\<lparr>Header := Header_Set (Header req) ''X-Proxy-Invalid'' ''1''\<rparr>
          else
            let req1 = req\<lparr>URL_Scheme := target_Scheme\<rparr>;
                req2 = req1\<lparr>URL_Host := target_Host\<rparr>;
                req3 = req2\<lparr>Host := target_Host\<rparr>;
                newPath = Join [''/'', mappedPath, remainingPath];
                req4 = req3\<lparr>URL_Path := newPath\<rparr>;
                req5 = req4\<lparr>Header := set_headers fixedHeaders_part001 (Header req4)\<rparr>;
                req6 = req5\<lparr>Header := Header_Del (Header req5) ''Accept-Encoding''\<rparr>
            in req6\<lparr>Header := Header_Del (Header req6) ''If-Modified-Since''\<rparr>)"

text \<open>\<open>part_002\<close> returns an unmatched request as it came.\<close>

definition Director_part002 :: "route_table \<Rightarrow> request \<Rightarrow> request" where
  "Director_part002 tbl req =
     (case findRoute tbl (URL_Path req) of
        (mappedPath, remainingPath, found) \<Rightarrow>
          if \<not> found then req
          else
            let req1 = req\<lparr>URL_Scheme := target_Scheme\<rparr>;
                req2 = req1\<lparr>URL_Host := target_Host\<rparr>;
                req3 = req2\<lparr>Host := target_Host\<rparr>;
                newPath = Join [''/'', mappedPath, remainingPath];
                req4 = req3\<lparr>URL_Path := newPath\<rparr>;
                req5 = req4\<lparr>Header := set_headers fixedHeaders_part002 (Header req4)\<rparr>;
                req6 = req5\<lparr>Header := Header_Del (Header req5) ''Accept-Encoding''\<rparr>
            in req6\<lparr>Header := Header_Del (Header req6) ''If-Modified-Since''\<rparr>)"

section \<open>The response shaper\<close>

fun isChunked :: "string list \<Rightarrow> bool" where
  "isChunked [] = False"
| "isChunked (e # encodings) = (if e = ''chunked'' then True else isChunked encodings)"

text \<open>
  \<open>ModifyResponse\<close> of \<open>main.go\<close> sets the CORS header, logs, and adds the size to the
  floating-point traffic counter \<open>networkDataCount\<close>, which no response depends on and
  which is left out. It returns \<open>nil\<close> on its only path.
\<close>

definition ModifyResponse_main :: "response \<Rightarrow> response" where
  "ModifyResponse_main resp =
     resp\<lparr>RespHeader := Header_Set (RespHeader resp) ''Access-Control-Allow-Origin'' ''*''\<rparr>"

text \<open>
  \<open>ModifyResponse\<close> of \<open>part_001\<close> and of \<open>part_002\<close> (the same code but for the log
  lines): the chunking policy, then the CORS header. \<open>ContentLength\<close> is the \<open>int64\<close>
  field of the response (\<open>-1\<close> when unknown), compared with \<open>1024*1024\<close>. It returns
  \<open>nil\<close> on its only path.
\<close>

definition ModifyResponse_part :: "response \<Rightarrow> response" where
  "ModifyResponse_part resp =
     (let contentType = Header_Get (RespHeader resp) ''Content-Type'';
          isVideo = (contentType = ''video/mp4'' \<or> contentType = ''video/webm'' \<or>
                     contentType = ''application/octet-stream'');
          resp1 =
            (if isVideo \<or> ContentLength resp \<ge> 1024 * 1024 then
               (if \<not> isChunked (TransferEncoding resp) then
                  resp\<lparr>RespHeader := Header_Del (RespHeader resp) ''Content-Length'',
                       TransferEncoding := [''chunked'']\<rparr>
                else resp)
             else resp)
      in resp1\<lparr>RespHeader := Header_Set (RespHeader resp1) ''Access-Control-Allow-Origin'' ''*''\<rparr>)"

section \<open>The handler\<close>

text \<open>
  What the handler does with an inbound request: it answers \<open>http.NotFound\<close>, or it calls
  \<open>proxy.ServeHTTP\<close>. The reverse proxy of the standard library then copies the request,
  runs the Director on the copy and hands the copy to the transport; \<open>Dispatched\<close> carries
  that outgoing request as the Director left it. The inbound request itself is not
  changed by the Director.
\<close>

datatype outcome = NotFound | Dispatched request

definition proxy_ServeHTTP :: "(request \<Rightarrow> request) \<Rightarrow> request \<Rightarrow> outcome" where
  "proxy_ServeHTTP director r = Dispatched (director r)"

text \<open>
  \<open>main.go\<close> and \<open>part_001\<close>: the handler tests the marker header on the inbound
  request, before \<open>proxy.ServeHTTP\<close> (and so the Director) runs.
\<close>

definition handler_main :: "route_table \<Rightarrow> request \<Rightarrow> outcome" where
  "handler_main tbl r =
     (if Header_Get (Header r) ''X-Proxy-Invalid'' = ''1'' then NotFound
      else proxy_ServeHTTP (Director_main tbl) r)"

definition handler_part001 :: "route_table \<Rightarrow> request \<Rightarrow> outcome" where
  "handler_part001 tbl r =
     (if Header_Get (Header r) ''X-Proxy-Invalid'' = ''1'' then NotFound
      else proxy_ServeHTTP (Director_part001 tbl) r)"

text \<open>\<open>part_002\<close>: the handler looks the path up itself.\<close>

definition handler_part002 :: "route_table \<Rightarrow> request \<Rightarrow> outcome" where
  "handler_part002 tbl r =
     (case findRoute tbl (URL_Path r) of
        (mappedPath, remainingPath, found) \<Rightarrow>
          if \<not> found then NotFound
          else proxy_ServeHTTP (Director_part002 tbl) r)"

section \<open>The buffer pool\<close>

text \<open>
  A \<open>[]byte\<close> is modelled by its length and its capacity; the bytes it holds play no part
  in the pool. \<open>make([]byte, size)\<close> has both equal to \<open>size\<close>. Reslicing \<open>buf[:n]\<close>
  sets the length and keeps the capacity; it panics when \<open>n\<close> exceeds the capacity
  (\<open>None\<close>).
\<close>

record buffer =
  buf_len :: nat
  buf_cap :: nat


definition reslice :: "buffer \<Rightarrow> nat \<Rightarrow> buffer option" where
  "reslice buf n = (if n \<le> buf_cap buf then Some (buf\<lparr>buf_len := n\<rparr>) else None)"




definition pool_Put :: "buffer list \<Rightarrow> buffer \<Rightarrow> buffer list" where
  "pool_Put items x = x # items"


subsection \<open>\<open>main.go\<close>\<close>

text \<open>
  The pool of \<open>main.go\<close>: the items, the configured size, the number of buffers handed
  out, and whether the idle timer is running (the timer is created stopped and is never
  \<open>nil\<close> afterwards).
\<close>

record bufferPool =
  bp_pool :: "buffer list"
  bp_size :: nat
  bp_idleTimer_running :: bool
  bp_active :: int

definition newBufferPool_main :: "nat \<Rightarrow> bufferPool" where
  "newBufferPool_main sz =
     \<lparr>bp_pool = [], bp_size = sz, bp_idleTimer_running = False, bp_active = 0\<rparr>"




text \<open>\<open>Put\<close> returns \<open>None\<close> if the reslice panics; the guard excludes it.\<close>

definition Put_main :: "bufferPool \<Rightarrow> buffer \<Rightarrow> bufferPool option" where
  "Put_main b buf =
     (let pooled =
            (if buf_cap buf = bp_size b then
               (case reslice buf (bp_size b) of
                  None \<Rightarrow> None
                | Some buf' \<Rightarrow> Some (b\<lparr>bp_pool := pool_Put (bp_pool b) buf'\<rparr>))
             else Some b)
      in case pooled of
           None \<Rightarrow> None
         | Some b1 \<Rightarrow>
             let b2 = b1\<lparr>bp_active := bp_active b1 - 1\<rparr>
             in Some (if bp_active b2 \<le> 0 then b2\<lparr>bp_idleTimer_running := True\<rparr> else b2))"

subsection \<open>\<open>part_001\<close> and \<open>part_002\<close>\<close>

text \<open>
  The pool of \<open>part_001\<close> and \<open>part_002\<close> (the same code): only the \<open>sync.Pool\<close>, whose
  \<open>New\<close> allocates the size given to \<open>newBufferPool\<close>; \<open>Put\<close> compares with the constant
  \<open>bufferSize\<close>, which is also the size \<open>main\<close> passes to \<open>newBufferPool\<close>.
\<close>

record bufferPool_part =
  pp_pool :: "buffer list"
  pp_new_size :: nat

definition bufferSize_part :: nat where
  "bufferSize_part = 64 * 1024 * 1024"

definition newBufferPool_part :: "nat \<Rightarrow> bufferPool_part" where
  "newBufferPool_part sz = \<lparr>pp_pool = [], pp_new_size = sz\<rparr>"



definition Put_part :: "bufferPool_part \<Rightarrow> buffer \<Rightarrow> bufferPool_part option" where
  "Put_part b buf =
     (if buf_cap buf \<ge> bufferSize_part then
        (case reslice buf bufferSize_part of
           None \<Rightarrow> None
         | Some buf' \<Rightarrow> Some (b\<lparr>pp_pool := pool_Put (pp_pool b) buf'\<rparr>))
      else Some b)"



definition pool_inv_main :: "bufferPool \<Rightarrow> bool" where
  "pool_inv_main b = list_all (\<lambda>x. buf_cap x = bp_size b) (bp_pool b)"

definition pool_inv_part :: "bufferPool_part \<Rightarrow> bool" where
  "pool_inv_part b =
     (pp_new_size b = bufferSize_part \<and> list_all (\<lambda>x. buf_cap x \<ge> bufferSize_part) (pp_pool b))"

section \<open>Properties of the lookup\<close>

lemma TrimPrefix_slash: "TrimPrefix p ''/'' = strip_leading_slash p"
  by (cases p) (auto simp: TrimPrefix_def HasPrefix_def strip_leading_slash_def)

lemma IndexByte_None: "IndexByte s c = None \<longleftrightarrow> c \<notin> set s"
  by (induction s) auto

lemma IndexByte_Some:
  "IndexByte s c = Some m \<Longrightarrow>
     take m s = takeWhile (\<lambda>x. x \<noteq> c) s \<and> drop (m + 1) s = drop 1 (dropWhile (\<lambda>x. x \<noteq> c) s)"
proof (induction s arbitrary: m)
  case Nil
  then show ?case by simp
next
  case (Cons x xs)
  show ?case
  proof (cases "x = c")
    case True
    with Cons.prems show ?thesis by simp
  next
    case False
    with Cons.prems obtain k where k: "IndexByte xs c = Some k" "m = Suc k"
      by auto
    from Cons.IH [OF k(1)] False k(2) show ?thesis by simp
  qed
qed

lemma SplitN_two:
  "SplitN s c 2 =
     (if c \<in> set s then [takeWhile (\<lambda>x. x \<noteq> c) s, drop 1 (dropWhile (\<lambda>x. x \<noteq> c) s)] else [s])"
proof (cases "IndexByte s c")
  case None
  then have notin: "c \<notin> set s" by (simp add: IndexByte_None)
  show ?thesis
  proof (cases s)
    case Nil
    then show ?thesis by (simp add: SplitN_def)
  next
    case (Cons x xs)
    then have "nat (int (length s) + 1 - 1) = Suc (length xs)" by simp
    with None notin Cons show ?thesis
      by (simp add: SplitN_def Let_def)
  qed
next
  case (Some m)
  then have isin: "c \<in> set s" using IndexByte_None [of s c] by auto
  then obtain x xs where s: "s = x # xs" by (cases s) auto
  have k: "nat ((if 2 > int (length s) + 1 then int (length s) + 1 else 2) - 1) = Suc 0"
    using s by simp
  have "SplitN s c 2 = genSplit_loop s c (Suc 0)"
    unfolding SplitN_def Let_def using k by simp
  also have "\<dots> = [take m s, drop (m + 1) s]"
    using Some by simp
  finally show ?thesis
    using IndexByte_Some [OF Some] isin by simp
qed

lemma takeWhile_all: "c \<notin> set s \<Longrightarrow> takeWhile (\<lambda>x. x \<noteq> c) s = s"
  by (induction s) auto

lemma dropWhile_all: "c \<notin> set s \<Longrightarrow> dropWhile (\<lambda>x. x \<noteq> c) s = []"
  by (induction s) auto

lemma findRoute_parts:
  "findRoute tbl p =
     (case tbl (first_segment p) of
        Some target \<Rightarrow> (target, remainder_after_segment p, True)
      | None \<Rightarrow> ('''', '''', False))"
  by (auto simp: findRoute_def TrimPrefix_slash SplitN_two first_segment_def
      remainder_after_segment_def Let_def takeWhile_all dropWhile_all split: option.splits)

text \<open>
  Claim C5. For every path \<open>p\<close> and every active table, \<open>findRoute\<close> reports found exactly
  when the first segment of \<open>p\<close> (one leading slash stripped, compared byte for byte, hence
  case-sensitively) is a key of the table; it then returns the mapped target and, as
  remainder, everything after the separator following the first segment (the empty string
  when there is none). Otherwise it returns two empty strings and found = false.
\<close>

theorem findRoute_refines_lookup:
  "findRoute tbl p = lookup_spec tbl p \<and>
   (snd (snd (findRoute tbl p)) \<longleftrightarrow> first_segment p \<in> dom tbl)"
  by (auto simp: findRoute_parts lookup_spec_def split: option.splits)

text \<open>
  Claim C10. For the paths \<open>"/"\<close> and \<open>""\<close> the first segment is the empty string, and
  \<open>findRoute\<close> reports found (with the empty remainder) exactly when the empty string is
  itself a key of the active table; the result does not depend on any other entry.
\<close>

theorem findRoute_root_path:
  "first_segment ''/'' = '''' \<and> first_segment '''' = '''' \<and>
   findRoute tbl ''/'' =
     (case tbl '''' of Some target \<Rightarrow> (target, '''', True) | None \<Rightarrow> ('''', '''', False)) \<and>
   findRoute tbl '''' =
     (case tbl '''' of Some target \<Rightarrow> (target, '''', True) | None \<Rightarrow> ('''', '''', False)) \<and>
   (snd (snd (findRoute tbl ''/'')) \<longleftrightarrow> '''' \<in> dom tbl) \<and>
   (snd (snd (findRoute tbl '''')) \<longleftrightarrow> '''' \<in> dom tbl)"
  by (auto simp: findRoute_parts first_segment_def remainder_after_segment_def
      strip_leading_slash_def split: option.splits)

section \<open>Properties of the reload\<close>

text \<open>
  Claim C4. When \<open>loadRoutes\<close> returns an error (from \<open>os.Stat\<close>, from \<open>ioutil.ReadFile\<close>
  or from \<open>json.Unmarshal\<close>), the route table and \<open>lastMod\<close> are exactly what they were
  before the call, so \<open>findRoute\<close> answers every path as before; and each of the three
  failures does make \<open>loadRoutes\<close> return its error whenever the step is reached.
\<close>

theorem loadRoutes_failure_keeps_globals:
  "(loadRoutes u src g = (Some e, g', calls) \<longrightarrow>
      g' = g \<and> routes g' = routes g \<and> lastMod g' = lastMod g \<and>
      (\<forall>p. findRoute (routes g') p = findRoute (routes g) p)) \<and>
   (stat_result src = Inl e \<longrightarrow> fst (loadRoutes u src g) = Some e) \<and>
   (stat_result src = Inr t \<and> After t (lastMod g) \<and> read_result src = Inl e \<longrightarrow>
      fst (loadRoutes u src g) = Some e) \<and>
   (stat_result src = Inr t \<and> After t (lastMod g) \<and> read_result src = Inr content \<and>
    u content = Inl e \<longrightarrow> fst (loadRoutes u src g) = Some e)"
  by (auto simp: loadRoutes_def split: sum.splits if_splits)

theorem loadRoutes_failure_keeps_globals_witness:
  "loadRoutes (\<lambda>file. Inl (Error ''unexpected end of JSON input''))
     \<lparr>stat_result = Inr 20, read_result = Inr ''{''\<rparr>
     \<lparr>routes = [''media'' \<mapsto> ''cdn/media''], lastMod = 10\<rparr>
   = (Some (Error ''unexpected end of JSON input''),
      \<lparr>routes = [''media'' \<mapsto> ''cdn/media''], lastMod = 10\<rparr>,
      [Stat, ReadFile, Unmarshal False]) \<and>
   findRoute [''media'' \<mapsto> ''cdn/media''] ''/media/video.mp4'' = (''cdn/media'', ''video.mp4'', True)"
proof -
  let ?u = "\<lambda>file::string. (Inl (Error ''unexpected end of JSON input'') :: error + route_table)"
  let ?src = "\<lparr>stat_result = Inr 20, read_result = Inr ''{''\<rparr>"
  let ?g = "\<lparr>routes = [''media'' \<mapsto> ''cdn/media''], lastMod = (10::int)\<rparr>"
  have run: "loadRoutes ?u ?src ?g =
      (Some (Error ''unexpected end of JSON input''), ?g, [Stat, ReadFile, Unmarshal False])"
    by (simp add: loadRoutes_def After_def)
  have look: "findRoute [''media'' \<mapsto> ''cdn/media''] ''/media/video.mp4'' = (''cdn/media'', ''video.mp4'', True)"
    by (simp add: findRoute_parts first_segment_def remainder_after_segment_def
        strip_leading_slash_def)
  from loadRoutes_failure_keeps_globals
    [of ?u ?src ?g "Error ''unexpected end of JSON input''" ?g "[Stat, ReadFile, Unmarshal False]"]
    run look
  show ?thesis by simp
qed

text \<open>
  Claim C8. When the modification time reported by \<open>os.Stat\<close> is not after \<open>lastMod\<close>,
  \<open>loadRoutes\<close> returns \<open>nil\<close> after the \<open>Stat\<close> call alone: the file is neither read nor
  parsed and the globals are unchanged. Hence two reload cycles that see the same
  modification time, the first of which loads the file, parse it exactly once: the second
  cycle makes the \<open>Stat\<close> call only, whatever the file then holds.
\<close>

theorem loadRoutes_unchanged_is_noop:
  "(stat_result src = Inr t \<and> \<not> After t (lastMod g) \<longrightarrow>
      loadRoutes u src g = (None, g, [Stat])) \<and>
   (stat_result src1 = Inr t \<and> After t (lastMod g) \<and> read_result src1 = Inr content \<and>
    u content = Inr table \<and> stat_result src2 = Inr t \<longrightarrow>
      reload_cycles u [src1, src2] g =
        (g\<lparr>routes := table, lastMod := t\<rparr>, [Stat, ReadFile, Unmarshal True, Stat]) \<and>
      length (filter (\<lambda>c. c = Unmarshal True) (snd (reload_cycles u [src1, src2] g))) = 1 \<and>
      length (filter (\<lambda>c. c = ReadFile) (snd (reload_cycles u [src1, src2] g))) = 1)"
  by (auto simp: loadRoutes_def After_def split: sum.splits)

theorem loadRoutes_unchanged_is_noop_witness:
  "loadRoutes (\<lambda>file. Inr [''api'' \<mapsto> ''backend/api''])
     \<lparr>stat_result = Inr 20, read_result = Inr ''new''\<rparr>
     \<lparr>routes = [''media'' \<mapsto> ''cdn/media''], lastMod = 20\<rparr>
   = (None, \<lparr>routes = [''media'' \<mapsto> ''cdn/media''], lastMod = 20\<rparr>, [Stat]) \<and>
   reload_cycles (\<lambda>file. Inr [''api'' \<mapsto> ''backend/api''])
     [\<lparr>stat_result = Inr 20, read_result = Inr ''new''\<rparr>,
      \<lparr>stat_result = Inr 20, read_result = Inr ''newer''\<rparr>]
     \<lparr>routes = [''media'' \<mapsto> ''cdn/media''], lastMod = 10\<rparr>
   = (\<lparr>routes = [''api'' \<mapsto> ''backend/api''], lastMod = 20\<rparr>,
      [Stat, ReadFile, Unmarshal True, Stat])"
proof -
  let ?u = "\<lambda>file::string. (Inr [''api'' \<mapsto> ''backend/api''] :: error + route_table)"
  let ?src1 = "\<lparr>stat_result = Inr 20, read_result = Inr ''new''\<rparr>"
  let ?src2 = "\<lparr>stat_result = Inr 20, read_result = Inr ''newer''\<rparr>"
  let ?g20 = "\<lparr>routes = [''media'' \<mapsto> ''cdn/media''], lastMod = (20::int)\<rparr>"
  let ?g10 = "\<lparr>routes = [''media'' \<mapsto> ''cdn/media''], lastMod = (10::int)\<rparr>"
  note a = loadRoutes_unchanged_is_noop
    [where src = ?src1 and t = 20 and g = ?g20 and u = ?u]
  note b = loadRoutes_unchanged_is_noop
    [where t = 20 and g = ?g10 and u = ?u and ?src1.0 = ?src1 and content = "''new''"
       and table = "[''api'' \<mapsto> ''backend/api'']" and ?src2.0 = ?src2]
  from a b show ?thesis by (simp add: After_def)
qed

section \<open>Properties of the Director\<close>

lemma fixed_headers_main:
  "Header_Del (Header_Del (set_headers fixedHeaders_main h) ''Accept-Encoding'') ''If-Modified-Since'' =
   h(''Host'' \<mapsto> [''www.xxx.com''], ''User-Agent'' \<mapsto> [user_agent],
     ''Referer'' \<mapsto> [''https://www.xxx.com''], ''Accept-Encoding'' := None,
     ''If-Modified-Since'' := None)"
  by (simp add: set_headers_def fixedHeaders_main_def Header_Set_def Header_Del_def)

lemma fixed_headers_part001:
  "Header_Del (Header_Del (set_headers fixedHeaders_part001 h) ''Accept-Encoding'') ''If-Modified-Since'' =
   h(''Host'' \<mapsto> [''www.xxx.com''], ''User-Agent'' \<mapsto> [user_agent],
     ''Referer'' \<mapsto> [''https://www.xxx.com/''], ''Accept-Encoding'' := None,
     ''If-Modified-Since'' := None)"
  by (simp add: set_headers_def fixedHeaders_part001_def Header_Set_def Header_Del_def)

lemma fixed_headers_part002:
  "Header_Del (Header_Del (set_headers fixedHeaders_part002 h) ''Accept-Encoding'') ''If-Modified-Since'' =
   h(''Host'' \<mapsto> [''www.xxx.com''], ''User-Agent'' \<mapsto> [user_agent],
     ''Referer'' \<mapsto> [''https://www.xxx.com''], ''Accept-Encoding'' := None,
     ''If-Modified-Since'' := None)"
  by (simp add: set_headers_def fixedHeaders_part002_def Header_Set_def Header_Del_def)

lemma Director_main_matched:
  "findRoute tbl (URL_Path req) = (m, r, True) \<Longrightarrow>
     Director_main tbl req =
       req\<lparr>URL_Scheme := ''https'', URL_Host := ''www.xxx.com'', Host := ''www.xxx.com'',
           URL_Path := Join [''/'', m, r],
           Header := (Header req)(''Host'' \<mapsto> [''www.xxx.com''], ''User-Agent'' \<mapsto> [user_agent],
             ''Referer'' \<mapsto> [''https://www.xxx.com''], ''Accept-Encoding'' := None,
             ''If-Modified-Since'' := None)\<rparr>"
  by (simp add: Director_main_def Let_def fixed_headers_main target_Scheme_def target_Host_def
      del: Join.simps)

lemma Director_part001_matched:
  "findRoute tbl (URL_Path req) = (m, r, True) \<Longrightarrow>
     Director_part001 tbl req =
       req\<lparr>URL_Scheme := ''https'', URL_Host := ''www.xxx.com'', Host := ''www.xxx.com'',
           URL_Path := Join [''/'', m, r],
           Header := (Header req)(''Host'' \<mapsto> [''www.xxx.com''], ''User-Agent'' \<mapsto> [user_agent],
             ''Referer'' \<mapsto> [''https://www.xxx.com/''], ''Accept-Encoding'' := None,
             ''If-Modified-Since'' := None)\<rparr>"
  by (simp add: Director_part001_def Let_def fixed_headers_part001 target_Scheme_def
      target_Host_def del: Join.simps)

lemma Director_part002_matched:
  "findRoute tbl (URL_Path req) = (m, r, True) \<Longrightarrow>
     Director_part002 tbl req =
       req\<lparr>URL_Scheme := ''https'', URL_Host := ''www.xxx.com'', Host := ''www.xxx.com'',
           URL_Path := Join [''/'', m, r],
           Header := (Header req)(''Host'' \<mapsto> [''www.xxx.com''], ''User-Agent'' \<mapsto> [user_agent],
             ''Referer'' \<mapsto> [''https://www.xxx.com''], ''Accept-Encoding'' := None,
             ''If-Modified-Since'' := None)\<rparr>"
  by (simp add: Director_part002_def Let_def fixed_headers_part002 target_Scheme_def
      target_Host_def del: Join.simps)

lemma Join_example: "Join [''/'', ''cdn/media'', ''video.mp4''] = ''/cdn/media/video.mp4''"
  by (simp add: Clean_def)

subsection \<open>The joined path is normalised\<close>

text \<open>
  The output buffer of \<open>Clean\<close> on a rooted path stays a normalised rooted path through
  every step of the loop: skipping an element leaves it alone, backtracking cuts it
  before a separator (or back to the root), copying an element adds one separator and
  bytes that are no separators.
\<close>

lemma has_double_slash_append:
  "has_double_slash (xs @ ys) \<longleftrightarrow>
     has_double_slash xs \<or> has_double_slash ys \<or>
     (xs \<noteq> [] \<and> ys \<noteq> [] \<and> last xs = CHR ''/'' \<and> hd ys = CHR ''/'')"
proof (induction xs rule: has_double_slash.induct)
  case 1
  then show ?case by simp
next
  case (2 c)
  then show ?case by (cases ys) auto
next
  case (3 a b cs)
  then show ?case by auto
qed

lemma has_double_slash_take: "\<not> has_double_slash xs \<Longrightarrow> \<not> has_double_slash (take k xs)"
proof -
  assume a: "\<not> has_double_slash xs"
  have "xs = take k xs @ drop k xs" by simp
  with a have "\<not> has_double_slash (take k xs @ drop k xs)" by simp
  then show ?thesis unfolding has_double_slash_append by blast
qed

lemma no_double_slash_nth:
  "\<not> has_double_slash xs \<Longrightarrow> Suc i < length xs \<Longrightarrow> xs ! Suc i = CHR ''/'' \<Longrightarrow> xs ! i \<noteq> CHR ''/''"
proof (induction xs arbitrary: i rule: has_double_slash.induct)
  case 1
  then show ?case by simp
next
  case (2 c)
  then show ?case by simp
next
  case (3 a b cs)
  then show ?case by (cases i) auto
qed

lemma no_slash_no_double: "CHR ''/'' \<notin> set xs \<Longrightarrow> \<not> has_double_slash xs"
  by (induction xs rule: has_double_slash.induct) auto

lemma backtrack_w_bounds:
  "1 \<le> n \<Longrightarrow> 1 \<le> backtrack_w out 1 n \<and> backtrack_w out 1 n \<le> n \<and>
     (backtrack_w out 1 n = 1 \<or> out ! backtrack_w out 1 n = CHR ''/'')"
proof (induction n)
  case 0
  then show ?case by simp
next
  case (Suc k)
  show ?case
  proof (cases "Suc k > 1 \<and> out ! Suc k \<noteq> CHR ''/''")
    case True
    then have "1 \<le> k" by simp
    from Suc.IH [OF this] True show ?thesis by auto
  next
    case False
    then show ?thesis by auto
  qed
qed

lemma clean_rooted_backtrack:
  assumes "clean_rooted out" and "length out > 1"
  shows "clean_rooted (backtrack out 1)"
proof -
  let ?w = "backtrack_w out 1 (length out - 1)"
  from assms(2) have "1 \<le> length out - 1" by simp
  from backtrack_w_bounds [OF this, of out]
  have w: "1 \<le> ?w" "?w \<le> length out - 1" "?w = 1 \<or> out ! ?w = CHR ''/''" by auto
  from assms obtain cs where out: "out = CHR ''/'' # cs" and nd: "\<not> has_double_slash out"
    by (auto simp: clean_rooted_def split: list.splits)
  from w(1) obtain k where k: "?w = Suc k" by (cases ?w) auto
  have tk: "take ?w out = CHR ''/'' # take k cs" using out k by simp
  have nd': "\<not> has_double_slash (take ?w out)" using nd by (rule has_double_slash_take)
  have "take k cs = [] \<or> last (take k cs) \<noteq> CHR ''/''"
  proof (cases "k = 0")
    case True
    then show ?thesis by simp
  next
    case False
    then obtain j where j: "k = Suc j" by (cases k) auto
    with k w(3) have sl: "out ! Suc (Suc j) = CHR ''/''" by simp
    from w(2) k j assms(2) have lt: "Suc (Suc j) < length out" by simp
    from no_double_slash_nth [OF nd lt sl] have "out ! Suc j \<noteq> CHR ''/''" .
    then have "cs ! j \<noteq> CHR ''/''" using out by simp
    moreover from lt out have "j < length cs" by simp
    then have "last (take (Suc j) cs) = cs ! j"
      by (simp add: take_Suc_conv_app_nth)
    ultimately show ?thesis using j by simp
  qed
  with tk nd' show ?thesis
    by (simp add: backtrack_def clean_rooted_def)
qed

lemma clean_rooted_element:
  assumes "clean_rooted out" and "c \<noteq> CHR ''/''" and "CHR ''/'' \<notin> set e"
  shows "clean_rooted ((if length out \<noteq> 1 then out @ ''/'' else out) @ c # e)"
proof -
  from assms(1) obtain cs where out: "out = CHR ''/'' # cs"
    and lst: "cs = [] \<or> last cs \<noteq> CHR ''/''" and nd: "\<not> has_double_slash out"
    by (auto simp: clean_rooted_def split: list.splits)
  have notin: "CHR ''/'' \<notin> set (c # e)" using assms(2,3) by simp
  have elem1: "\<not> has_double_slash (c # e)" using notin by (rule no_slash_no_double)
  have "last (c # e) \<in> set (c # e)" by (rule last_in_set) simp
  with notin have elem2: "last (c # e) \<noteq> CHR ''/''" by metis
  note elem = elem1 elem2
  show ?thesis
  proof (cases "cs = []")
    case True
    with out elem assms(2) show ?thesis
      by (cases e) (auto simp: clean_rooted_def)
  next
    case False
    with lst have l: "last cs \<noteq> CHR ''/''" by simp
    have "\<not> has_double_slash (out @ ''/'')"
      by (subst has_double_slash_append) (use nd out False l in simp)
    then have "\<not> has_double_slash ((out @ ''/'') @ c # e)"
      by (subst has_double_slash_append) (use elem assms(2) in simp)
    moreover have "last (cs @ ''/'' @ c # e) \<noteq> CHR ''/''"
      using elem(2) by simp
    ultimately show ?thesis
      using out False by (simp add: clean_rooted_def)
  qed
qed

lemma Clean_loop_rooted:
  "clean_rooted out \<Longrightarrow> clean_rooted (Clean_loop True out 1 rest)"
proof (induction "True" out "1::nat" rest rule: Clean_loop.induct)
  case (1 out)
  then show ?case by simp
next
  case (2 out c cs)
  have notin: "CHR ''/'' \<notin> set (takeWhile (\<lambda>x. x \<noteq> CHR ''/'') cs)"
    by (auto dest: set_takeWhileD)
  show ?case
  proof (cases "c = CHR ''/''")
    case True
    with 2 show ?thesis by simp
  next
    case c: False
    show ?thesis
    proof (cases "c = CHR ''.'' \<and> (case cs of [] \<Rightarrow> True | d # ds \<Rightarrow> d = CHR ''/'')")
      case True
      with 2 c show ?thesis by simp
    next
      case dot: False
      show ?thesis
      proof (cases "c = CHR ''.'' \<and>
              (case cs of [] \<Rightarrow> False
               | d # ds \<Rightarrow> d = CHR ''.'' \<and> (case ds of [] \<Rightarrow> True | e # es \<Rightarrow> e = CHR ''/''))")
        case True
        show ?thesis
        proof (cases "length out > 1")
          case gt: True
          from clean_rooted_backtrack [OF "2.prems" gt]
          have "clean_rooted (Clean_loop True (backtrack out 1) 1 (tl cs))"
            using "2.hyps"(3) c dot True gt by simp
          with c dot True gt show ?thesis by simp
        next
          case le: False
          have "clean_rooted (Clean_loop True out 1 (tl cs))"
            using "2.hyps"(5) c dot True le "2.prems" by simp
          with c dot True le show ?thesis by simp
        qed
      next
        case False
        let ?out' = "(if length out \<noteq> 1 then out @ ''/'' else out) @ c # takeWhile (\<lambda>x. x \<noteq> CHR ''/'') cs"
        have "clean_rooted ?out'"
          using clean_rooted_element [OF "2.prems" c notin] .
        then have "clean_rooted (Clean_loop True ?out' 1 (dropWhile (\<lambda>x. x \<noteq> CHR ''/'') cs))"
          using "2.hyps"(6) c dot False by simp
        moreover have "Clean_loop True out 1 (c # cs) =
            Clean_loop True ?out' 1 (dropWhile (\<lambda>x. x \<noteq> CHR ''/'') cs)"
          by (simp only: Clean_loop.simps if_not_P [OF c] if_not_P [OF dot] if_not_P [OF False]
              Let_def simp_thms)
        ultimately show ?thesis by simp
      qed
    qed
  qed
qed

lemma Join_rooted_normalized: "clean_rooted (Join [''/'', m, r])"
proof -
  have "clean_rooted ''/''" by (simp add: clean_rooted_def)
  then have "clean_rooted (Clean_loop True ''/'' 1 (''/'' @ m @ ''/'' @ r))"
    by (rule Clean_loop_rooted)
  moreover then have "Clean_loop True ''/'' 1 (''/'' @ m @ ''/'' @ r) \<noteq> []"
    by (auto simp: clean_rooted_def)
  ultimately show ?thesis
    by (simp add: Clean_def)
qed

subsection \<open>\<open>Join\<close> computes the join of the specification\<close>

lemma split_slash_nonempty: "split_slash s \<noteq> []"
  by (induction s) auto

lemma split_slash_append: "split_slash (a @ CHR ''/'' # b) = split_slash a @ split_slash b"
  by (induction a) (auto simp: split_slash_nonempty)

lemma split_slash_takeWhile:
  "split_slash s =
     takeWhile (\<lambda>x. x \<noteq> CHR ''/'') s #
       (case dropWhile (\<lambda>x. x \<noteq> CHR ''/'') s of [] \<Rightarrow> [] | d # rest \<Rightarrow> split_slash rest)"
proof (induction s)
  case Nil
  then show ?case by simp
next
  case (Cons c cs)
  show ?case
  proof (cases "c = CHR ''/''")
    case True
    then show ?thesis by simp
  next
    case False
    from Cons.IH have "hd (split_slash cs) = takeWhile (\<lambda>x. x \<noteq> CHR ''/'') cs"
      and "tl (split_slash cs) =
        (case dropWhile (\<lambda>x. x \<noteq> CHR ''/'') cs of [] \<Rightarrow> [] | d # rest \<Rightarrow> split_slash rest)"
      by (metis list.sel(1), metis list.sel(3))
    with False show ?thesis by simp
  qed
qed

lemma path_elements_Nil: "path_elements [] = []"
  by (simp add: path_elements_def)

lemma path_elements_slash: "path_elements (CHR ''/'' # cs) = path_elements cs"
  by (simp add: path_elements_def)

lemma path_elements_append:
  "path_elements (a @ CHR ''/'' # b) = path_elements a @ path_elements b"
  by (simp add: path_elements_def split_slash_append)

lemma path_elements_element:
  assumes "c \<noteq> CHR ''/''"
  shows "path_elements (c # cs) =
    (c # takeWhile (\<lambda>x. x \<noteq> CHR ''/'') cs) # path_elements (dropWhile (\<lambda>x. x \<noteq> CHR ''/'') cs)"
proof -
  have split: "path_elements (c # cs) =
      (c # takeWhile (\<lambda>x. x \<noteq> CHR ''/'') cs) #
        filter (\<lambda>e. e \<noteq> [])
          (case dropWhile (\<lambda>x. x \<noteq> CHR ''/'') cs of [] \<Rightarrow> [] | d # rest \<Rightarrow> split_slash rest)"
    unfolding path_elements_def by (subst split_slash_takeWhile) (use assms in simp)
  show ?thesis
  proof (cases "dropWhile (\<lambda>x. x \<noteq> CHR ''/'') cs")
    case Nil
    show ?thesis unfolding split Nil by (simp add: path_elements_Nil)
  next
    case (Cons d rest)
    then have d: "d = CHR ''/''"
      using hd_dropWhile [of "\<lambda>x. x \<noteq> CHR ''/''" cs] by auto
    show ?thesis unfolding split Cons by (simp add: d path_elements_def)
  qed
qed

lemma rooted_path_snoc:
  "rooted_path (es @ [e]) = (if es = [] then CHR ''/'' # e else rooted_path es @ CHR ''/'' # e)"
  by (simp add: rooted_path_def)

lemma rooted_path_length:
  "plain_elements es \<Longrightarrow> length (rooted_path es) = 1 \<longleftrightarrow> es = []"
  by (cases es) (auto simp: rooted_path_def plain_elements_def)

lemma rooted_path_nonempty: "rooted_path es \<noteq> []"
  by (cases es) (auto simp: rooted_path_def)

lemma backtrack_w_element:
  assumes "CHR ''/'' \<notin> set e" and "k \<le> length e" and "length a \<ge> 1"
  shows "backtrack_w (a @ CHR ''/'' # e) 1 (length a + k) = length a"
  using assms(2)
proof (induction k)
  case 0
  from assms(3) obtain n where n: "length a = Suc n" by (cases "length a") auto
  have "(a @ CHR ''/'' # e) ! Suc n = CHR ''/''"
    using n by (metis nth_append_length)
  then show ?case using n by simp
next
  case (Suc k)
  then have "k < length e" by simp
  then have "e ! k \<in> set e" by simp
  with assms(1) have "e ! k \<noteq> CHR ''/''" by metis
  moreover have "(a @ CHR ''/'' # e) ! (length a + Suc k) = e ! k"
    by (simp add: nth_append)
  moreover from assms(3) have "a \<noteq> []" by auto
  ultimately show ?case using Suc assms(3) by simp
qed

lemma backtrack_w_first:
  assumes "CHR ''/'' \<notin> set e" and "k \<le> length e" and "1 \<le> k"
  shows "backtrack_w (CHR ''/'' # e) 1 k = 1"
  using assms(2,3)
proof (induction k)
  case 0
  then show ?case by simp
next
  case (Suc k)
  show ?case
  proof (cases "k = 0")
    case True
    then show ?thesis by simp
  next
    case False
    from Suc.prems have "k < length e" by simp
    then have "e ! k \<in> set e" by simp
    with assms(1) have "e ! k \<noteq> CHR ''/''" by metis
    with False Suc show ?thesis by simp
  qed
qed

lemma backtrack_rooted_path:
  assumes "plain_elements (es @ [e])"
  shows "backtrack (rooted_path (es @ [e])) 1 = rooted_path es"
proof -
  from assms have e: "e \<noteq> []" "CHR ''/'' \<notin> set e" and es: "plain_elements es"
    by (simp_all add: plain_elements_def)
  show ?thesis
  proof (cases "es = []")
    case True
    from e(1) have "1 \<le> length e" by (cases e) auto
    from backtrack_w_first [OF e(2) le_refl this]
    show ?thesis using True by (simp add: backtrack_def rooted_path_def)
  next
    case False
    let ?a = "rooted_path es"
    have a: "length ?a \<ge> 1" using rooted_path_nonempty [of es] by (cases ?a) auto
    have "backtrack_w (?a @ CHR ''/'' # e) 1 (length ?a + length e) = length ?a"
      using backtrack_w_element [OF e(2) le_refl a] .
    then show ?thesis using False by (simp add: backtrack_def rooted_path_snoc)
  qed
qed

lemma Clean_loop_resolves:
  "plain_elements kept \<Longrightarrow>
     Clean_loop True (rooted_path kept) 1 rest = rooted_path (resolve_dots kept (path_elements rest))"
proof (induction rest arbitrary: kept rule: length_induct)
  case (1 rest)
  note IH = "1.IH" [rule_format]
  note kept = "1.prems"
  show ?case
  proof (cases rest)
    case Nil
    then show ?thesis by (simp add: path_elements_Nil)
  next
    case (Cons c cs)
    show ?thesis
    proof (cases "c = CHR ''/''")
      case True
      with Cons IH [of cs kept] kept show ?thesis
        by (simp add: path_elements_slash)
    next
      case c: False
      let ?e = "c # takeWhile (\<lambda>x. x \<noteq> CHR ''/'') cs"
      let ?rest' = "dropWhile (\<lambda>x. x \<noteq> CHR ''/'') cs"
      have elems: "path_elements rest = ?e # path_elements ?rest'"
        using Cons c by (simp add: path_elements_element)
      have shorter: "length ?rest' < length rest"
        using Cons by (simp add: le_imp_less_Suc length_dropWhile_le)
      show ?thesis
      proof (cases "c = CHR ''.'' \<and> (case cs of [] \<Rightarrow> True | d # ds \<Rightarrow> d = CHR ''/'')")
        case dot: True
        then have e: "?e = ''.''" by (cases cs) auto
        have rest': "path_elements ?rest' = path_elements cs"
          using dot by (cases cs) (auto simp: path_elements_slash)
        have "Clean_loop True (rooted_path kept) 1 rest = Clean_loop True (rooted_path kept) 1 cs"
          using Cons c dot by simp
        also have "\<dots> = rooted_path (resolve_dots kept (path_elements cs))"
          using IH [of cs kept] Cons kept by simp
        finally show ?thesis using elems e rest' by simp
      next
        case nodot: False
        show ?thesis
        proof (cases "c = CHR ''.'' \<and>
              (case cs of [] \<Rightarrow> False
               | d # ds \<Rightarrow> d = CHR ''.'' \<and> (case ds of [] \<Rightarrow> True | e # es \<Rightarrow> e = CHR ''/''))")
          case dotdot: True
          then obtain ds where cs: "cs = CHR ''.'' # ds" and ds: "ds = [] \<or> hd ds = CHR ''/''"
            by (cases cs; cases "tl cs") auto
          have e: "?e = ''..''" using dotdot cs ds by (cases ds) auto
          have rest': "path_elements ?rest' = path_elements ds"
            using cs ds by (cases ds) (auto simp: path_elements_slash)
          have tl: "tl cs = ds" using cs by simp
          have len: "length ds < length rest" using Cons cs by simp
          have kept': "plain_elements (butlast kept)"
            using kept by (cases kept rule: rev_cases) (simp_all add: plain_elements_def)
          have step: "Clean_loop True (rooted_path kept) 1 rest =
              Clean_loop True (rooted_path (butlast kept)) 1 ds"
          proof (cases "kept = []")
            case True
            then have "\<not> length (rooted_path kept) > 1" by (simp add: rooted_path_def)
            with True Cons c nodot dotdot tl show ?thesis by simp
          next
            case False
            then obtain ks k where k: "kept = ks @ [k]" by (cases kept rule: rev_cases) auto
            from False rooted_path_length [OF kept] rooted_path_nonempty [of kept]
            have gt: "length (rooted_path kept) > 1"
              by (cases "rooted_path kept"; cases "tl (rooted_path kept)") auto
            have "backtrack (rooted_path kept) 1 = rooted_path (butlast kept)"
              using backtrack_rooted_path [of ks k] kept k by simp
            with gt Cons c nodot dotdot tl show ?thesis by simp
          qed
          also have "\<dots> = rooted_path (resolve_dots (butlast kept) (path_elements ds))"
            using IH [OF len kept'] .
          finally show ?thesis using elems e rest' by simp
        next
          case plain: False
          have e_not: "?e \<noteq> ''.''" "?e \<noteq> ''..''"
          proof -
            show "?e \<noteq> ''.''"
            proof
              assume "?e = ''.''"
              then have "c = CHR ''.''" "takeWhile (\<lambda>x. x \<noteq> CHR ''/'') cs = []" by simp_all
              then have "c = CHR ''.'' \<and> (case cs of [] \<Rightarrow> True | d # ds \<Rightarrow> d = CHR ''/'')"
                by (cases cs) (auto split: if_splits)
              with nodot show False by simp
            qed
            show "?e \<noteq> ''..''"
            proof
              assume "?e = ''..''"
              then have cd: "c = CHR ''.''" and tw: "takeWhile (\<lambda>x. x \<noteq> CHR ''/'') cs = ''.''"
                by simp_all
              from tw obtain ds where cs: "cs = CHR ''.'' # ds"
                and ds: "takeWhile (\<lambda>x. x \<noteq> CHR ''/'') ds = []"
                by (cases cs) (auto split: if_splits)
              from ds have "case ds of [] \<Rightarrow> True | e # es \<Rightarrow> e = CHR ''/''"
                by (cases ds) (auto split: if_splits)
              with cd cs plain show False by simp
            qed
          qed
          have e_plain: "?e \<noteq> []" "CHR ''/'' \<notin> set ?e"
            using c by (auto dest: set_takeWhileD)
          then have kept': "plain_elements (kept @ [?e])"
            using kept by (simp add: plain_elements_def)
          have out': "(if length (rooted_path kept) \<noteq> 1 then rooted_path kept @ ''/'' else rooted_path kept) @ ?e
              = rooted_path (kept @ [?e])"
            using rooted_path_length [OF kept]
            by (cases "kept = []") (simp_all add: rooted_path_snoc, simp add: rooted_path_def)
          have "Clean_loop True (rooted_path kept) 1 rest =
              Clean_loop True ((if length (rooted_path kept) \<noteq> 1 then rooted_path kept @ ''/''
                 else rooted_path kept) @ ?e) 1 ?rest'"
            unfolding Cons
            by (simp only: Clean_loop.simps if_not_P [OF c] if_not_P [OF nodot] if_not_P [OF plain]
                Let_def simp_thms)
          also have "\<dots> = Clean_loop True (rooted_path (kept @ [?e])) 1 ?rest'"
            by (simp only: out')
          also have "\<dots> = rooted_path (resolve_dots (kept @ [?e]) (path_elements ?rest'))"
            using IH [OF shorter kept'] .
          finally have fin: "Clean_loop True (rooted_path kept) 1 rest =
              rooted_path (resolve_dots (kept @ [?e]) (path_elements ?rest'))" .
          have res: "resolve_dots kept (path_elements rest) =
              resolve_dots (kept @ [?e]) (path_elements ?rest')"
            unfolding elems
            by (simp only: resolve_dots.simps if_not_P [OF e_not(1)] if_not_P [OF e_not(2)])
          show ?thesis by (simp only: res fin)
        qed
      qed
    qed
  qed
qed

lemma Join_lexical: "Join [''/'', m, r] = lexical_join m r"
proof -
  have "Clean_loop True (rooted_path []) 1 (CHR ''/'' # m @ CHR ''/'' # r) =
      rooted_path (resolve_dots [] (path_elements (CHR ''/'' # m @ CHR ''/'' # r)))"
    by (rule Clean_loop_resolves) (simp add: plain_elements_def)
  then have "Clean_loop True ''/'' 1 (CHR ''/'' # m @ CHR ''/'' # r) = lexical_join m r"
    by (simp add: lexical_join_def path_elements_slash path_elements_append rooted_path_def)
  moreover have "lexical_join m r \<noteq> []"
    by (simp add: lexical_join_def rooted_path_nonempty)
  ultimately show ?thesis
    by (simp add: Clean_def)
qed

lemma resolve_dots_plain:
  "''.'' \<notin> set es \<Longrightarrow> ''..'' \<notin> set es \<Longrightarrow> resolve_dots kept es = kept @ es"
  by (induction es arbitrary: kept) auto

text \<open>
  Claim C6. When the first segment of the request path is a key of the table, so that
  \<open>findRoute\<close> returns the target segment and the remainder, the Director of each variant
  sets the URL scheme and host and the request host to the fixed origin; sets the path to
  \<open>Join ["/", target, remainder]\<close>, which is the join of the specification: the path
  elements of the target followed by those of the remainder, each preceded by one slash
  (the root slash alone when there is none), so that it is rooted, holds no two slashes in
  a row and ends in no slash; sets the fixed \<open>Host\<close>, \<open>User-Agent\<close> and \<open>Referer\<close> headers
  (\<open>part_001\<close> writes the \<open>Referer\<close> with a final slash) and deletes \<open>Accept-Encoding\<close> and
  \<open>If-Modified-Since\<close>; every other header is kept. Where an element is \<open>"."\<close> or
  \<open>".."\<close>, the join drops the one and lets the other remove the element before it. With
  the table \<open>{"media": "cdn/media"}\<close> the path \<open>/media/video.mp4\<close> becomes
  \<open>/cdn/media/video.mp4\<close>.
\<close>

theorem Director_rewrites_matched:
  "(findRoute tbl (URL_Path req) = (mappedPath, remainingPath, True) \<longrightarrow>
      (URL_Scheme (Director_main tbl req) = ''https'' \<and>
       URL_Host (Director_main tbl req) = ''www.xxx.com'' \<and>
       Host (Director_main tbl req) = ''www.xxx.com'' \<and>
       URL_Path (Director_main tbl req) = Join [''/'', mappedPath, remainingPath] \<and>
       URL_Path (Director_main tbl req) = lexical_join mappedPath remainingPath \<and>
       (''.'' \<notin> set (path_elements mappedPath @ path_elements remainingPath) \<and>
        ''..'' \<notin> set (path_elements mappedPath @ path_elements remainingPath) \<longrightarrow>
          URL_Path (Director_main tbl req) =
            rooted_path (path_elements mappedPath @ path_elements remainingPath)) \<and>
       clean_rooted (URL_Path (Director_main tbl req)) \<and>
       Header (Director_main tbl req) =
         (Header req)(''Host'' \<mapsto> [''www.xxx.com''], ''User-Agent'' \<mapsto> [user_agent],
           ''Referer'' \<mapsto> [''https://www.xxx.com''], ''Accept-Encoding'' := None,
           ''If-Modified-Since'' := None)) \<and>
      (URL_Scheme (Director_part001 tbl req) = ''https'' \<and>
       URL_Host (Director_part001 tbl req) = ''www.xxx.com'' \<and>
       Host (Director_part001 tbl req) = ''www.xxx.com'' \<and>
       URL_Path (Director_part001 tbl req) = Join [''/'', mappedPath, remainingPath] \<and>
       URL_Path (Director_part001 tbl req) = lexical_join mappedPath remainingPath \<and>
       (''.'' \<notin> set (path_elements mappedPath @ path_elements remainingPath) \<and>
        ''..'' \<notin> set (path_elements mappedPath @ path_elements remainingPath) \<longrightarrow>
          URL_Path (Director_part001 tbl req) =
            rooted_path (path_elements mappedPath @ path_elements remainingPath)) \<and>
       clean_rooted (URL_Path (Director_part001 tbl req)) \<and>
       Header (Director_part001 tbl req) =
         (Header req)(''Host'' \<mapsto> [''www.xxx.com''], ''User-Agent'' \<mapsto> [user_agent],
           ''Referer'' \<mapsto> [''https://www.xxx.com/''], ''Accept-Encoding'' := None,
           ''If-Modified-Since'' := None)) \<and>
      (URL_Scheme (Director_part002 tbl req) = ''https'' \<and>
       URL_Host (Director_part002 tbl req) = ''www.xxx.com'' \<and>
       Host (Director_part002 tbl req) = ''www.xxx.com'' \<and>
       URL_Path (Director_part002 tbl req) = Join [''/'', mappedPath, remainingPath] \<and>
       URL_Path (Director_part002 tbl req) = lexical_join mappedPath remainingPath \<and>
       (''.'' \<notin> set (path_elements mappedPath @ path_elements remainingPath) \<and>
        ''..'' \<notin> set (path_elements mappedPath @ path_elements remainingPath) \<longrightarrow>
          URL_Path (Director_part002 tbl req) =
            rooted_path (path_elements mappedPath @ path_elements remainingPath)) \<and>
       clean_rooted (URL_Path (Director_part002 tbl req)) \<and>
       Header (Director_part002 tbl req) =
         (Header req)(''Host'' \<mapsto> [''www.xxx.com''], ''User-Agent'' \<mapsto> [user_agent],
           ''Referer'' \<mapsto> [''https://www.xxx.com''], ''Accept-Encoding'' := None,
           ''If-Modified-Since'' := None))) \<and>
   URL_Path (Director_main [''media'' \<mapsto> ''cdn/media''] (req\<lparr>URL_Path := ''/media/video.mp4''\<rparr>)) =
     ''/cdn/media/video.mp4'' \<and>
   URL_Path (Director_part001 [''media'' \<mapsto> ''cdn/media''] (req\<lparr>URL_Path := ''/media/video.mp4''\<rparr>)) =
     ''/cdn/media/video.mp4'' \<and>
   URL_Path (Director_part002 [''media'' \<mapsto> ''cdn/media''] (req\<lparr>URL_Path := ''/media/video.mp4''\<rparr>)) =
     ''/cdn/media/video.mp4''"
proof -
  have found: "findRoute [''media'' \<mapsto> ''cdn/media''] ''/media/video.mp4'' =
      (''cdn/media'', ''video.mp4'', True)"
    by (simp add: findRoute_parts first_segment_def remainder_after_segment_def
        strip_leading_slash_def)
  have example:
    "URL_Path (Director_main [''media'' \<mapsto> ''cdn/media''] (req\<lparr>URL_Path := ''/media/video.mp4''\<rparr>)) =
       ''/cdn/media/video.mp4''"
    "URL_Path (Director_part001 [''media'' \<mapsto> ''cdn/media''] (req\<lparr>URL_Path := ''/media/video.mp4''\<rparr>)) =
       ''/cdn/media/video.mp4''"
    "URL_Path (Director_part002 [''media'' \<mapsto> ''cdn/media''] (req\<lparr>URL_Path := ''/media/video.mp4''\<rparr>)) =
       ''/cdn/media/video.mp4''"
    by (simp_all add: Director_main_matched Director_part001_matched Director_part002_matched
        found Join_example del: Join.simps)
  let ?J = "Join [''/'', mappedPath, remainingPath]"
  let ?es = "path_elements mappedPath @ path_elements remainingPath"
  have lex: "?J = lexical_join mappedPath remainingPath"
    by (rule Join_lexical)
  have norm: "clean_rooted ?J"
    by (rule Join_rooted_normalized)
  have plain: "''.'' \<notin> set ?es \<and> ''..'' \<notin> set ?es \<longrightarrow> ?J = rooted_path ?es"
    unfolding lex by (simp add: lexical_join_def resolve_dots_plain)
  have general: ?thesis if m: "findRoute tbl (URL_Path req) = (mappedPath, remainingPath, True)"
  proof -
    have path: "URL_Path (Director_main tbl req) = ?J" "URL_Path (Director_part001 tbl req) = ?J"
      "URL_Path (Director_part002 tbl req) = ?J"
      by (simp_all add: Director_main_matched [OF m] Director_part001_matched [OF m]
          Director_part002_matched [OF m] del: Join.simps)
    have rest: "URL_Scheme (Director_main tbl req) = ''https''"
      "URL_Host (Director_main tbl req) = ''www.xxx.com''"
      "Host (Director_main tbl req) = ''www.xxx.com''"
      "Header (Director_main tbl req) =
         (Header req)(''Host'' \<mapsto> [''www.xxx.com''], ''User-Agent'' \<mapsto> [user_agent],
           ''Referer'' \<mapsto> [''https://www.xxx.com''], ''Accept-Encoding'' := None,
           ''If-Modified-Since'' := None)"
      "URL_Scheme (Director_part001 tbl req) = ''https''"
      "URL_Host (Director_part001 tbl req) = ''www.xxx.com''"
      "Host (Director_part001 tbl req) = ''www.xxx.com''"
      "Header (Director_part001 tbl req) =
         (Header req)(''Host'' \<mapsto> [''www.xxx.com''], ''User-Agent'' \<mapsto> [user_agent],
           ''Referer'' \<mapsto> [''https://www.xxx.com/''], ''Accept-Encoding'' := None,
           ''If-Modified-Since'' := None)"
      "URL_Scheme (Director_part002 tbl req) = ''https''"
      "URL_Host (Director_part002 tbl req) = ''www.xxx.com''"
      "Host (Director_part002 tbl req) = ''www.xxx.com''"
      "Header (Director_part002 tbl req) =
         (Header req)(''Host'' \<mapsto> [''www.xxx.com''], ''User-Agent'' \<mapsto> [user_agent],
           ''Referer'' \<mapsto> [''https://www.xxx.com''], ''Accept-Encoding'' := None,
           ''If-Modified-Since'' := None)"
      by (simp_all add: Director_main_matched [OF m] Director_part001_matched [OF m]
          Director_part002_matched [OF m] del: Join.simps)
    show ?thesis
      unfolding path rest using lex norm plain example by simp
  qed
  have other: ?thesis if "findRoute tbl (URL_Path req) \<noteq> (mappedPath, remainingPath, True)"
    using that example by simp
  from general other show ?thesis by blast
qed

theorem Director_rewrites_matched_witness:
  "findRoute [''media'' \<mapsto> ''cdn/media''] ''/media/video.mp4'' = (''cdn/media'', ''video.mp4'', True) \<and>
   URL_Scheme (Director_main [''media'' \<mapsto> ''cdn/media'']
     \<lparr>Method = ''GET'', URL_Scheme = [], URL_Host = [], URL_Path = ''/media/video.mp4'',
      Host = ''proxy.example:8443'',
      Header = [''Accept-Encoding'' \<mapsto> [''gzip''], ''Range'' \<mapsto> [''bytes=0-'']]\<rparr>) = ''https'' \<and>
   URL_Host (Director_main [''media'' \<mapsto> ''cdn/media'']
     \<lparr>Method = ''GET'', URL_Scheme = [], URL_Host = [], URL_Path = ''/media/video.mp4'',
      Host = ''proxy.example:8443'',
      Header = [''Accept-Encoding'' \<mapsto> [''gzip''], ''Range'' \<mapsto> [''bytes=0-'']]\<rparr>) = ''www.xxx.com'' \<and>
   URL_Path (Director_main [''media'' \<mapsto> ''cdn/media'']
     \<lparr>Method = ''GET'', URL_Scheme = [], URL_Host = [], URL_Path = ''/media/video.mp4'',
      Host = ''proxy.example:8443'',
      Header = [''Accept-Encoding'' \<mapsto> [''gzip''], ''Range'' \<mapsto> [''bytes=0-'']]\<rparr>) =
     ''/cdn/media/video.mp4'' \<and>
   Header (Director_main [''media'' \<mapsto> ''cdn/media'']
     \<lparr>Method = ''GET'', URL_Scheme = [], URL_Host = [], URL_Path = ''/media/video.mp4'',
      Host = ''proxy.example:8443'',
      Header = [''Accept-Encoding'' \<mapsto> [''gzip''], ''Range'' \<mapsto> [''bytes=0-'']]\<rparr>)
     ''Accept-Encoding'' = None \<and>
   Header (Director_main [''media'' \<mapsto> ''cdn/media'']
     \<lparr>Method = ''GET'', URL_Scheme = [], URL_Host = [], URL_Path = ''/media/video.mp4'',
      Host = ''proxy.example:8443'',
      Header = [''Accept-Encoding'' \<mapsto> [''gzip''], ''Range'' \<mapsto> [''bytes=0-'']]\<rparr>)
     ''Referer'' = Some [''https://www.xxx.com''] \<and>
   Header (Director_main [''media'' \<mapsto> ''cdn/media'']
     \<lparr>Method = ''GET'', URL_Scheme = [], URL_Host = [], URL_Path = ''/media/video.mp4'',
      Host = ''proxy.example:8443'',
      Header = [''Accept-Encoding'' \<mapsto> [''gzip''], ''Range'' \<mapsto> [''bytes=0-'']]\<rparr>)
     ''Range'' = Some [''bytes=0-''] \<and>
   path_elements ''cdn/media'' @ path_elements ''video.mp4'' = [''cdn'', ''media'', ''video.mp4''] \<and>
   URL_Path (Director_main [''media'' \<mapsto> ''cdn/media'']
     \<lparr>Method = ''GET'', URL_Scheme = [], URL_Host = [], URL_Path = ''/media/video.mp4'',
      Host = ''proxy.example:8443'',
      Header = [''Accept-Encoding'' \<mapsto> [''gzip''], ''Range'' \<mapsto> [''bytes=0-'']]\<rparr>) =
     rooted_path [''cdn'', ''media'', ''video.mp4''] \<and>
   rooted_path [''cdn'', ''media'', ''video.mp4''] = ''/cdn/media/video.mp4''"
proof -
  let ?tbl = "[''media'' \<mapsto> ''cdn/media'']"
  let ?req = "\<lparr>Method = ''GET'', URL_Scheme = [], URL_Host = [], URL_Path = ''/media/video.mp4'',
      Host = ''proxy.example:8443'',
      Header = [''Accept-Encoding'' \<mapsto> [''gzip''], ''Range'' \<mapsto> [''bytes=0-'']]\<rparr>"
  have found': "findRoute ?tbl ''/media/video.mp4'' = (''cdn/media'', ''video.mp4'', True)"
    by (simp add: findRoute_parts first_segment_def remainder_after_segment_def
        strip_leading_slash_def)
  then have found: "findRoute ?tbl (URL_Path ?req) = (''cdn/media'', ''video.mp4'', True)"
    by simp
  from Director_rewrites_matched [of ?tbl ?req "''cdn/media''" "''video.mp4''"] found
  have fields: "URL_Scheme (Director_main ?tbl ?req) = ''https''"
    "URL_Host (Director_main ?tbl ?req) = ''www.xxx.com''"
    "URL_Path (Director_main ?tbl ?req) = Join [''/'', ''cdn/media'', ''video.mp4'']"
    "Header (Director_main ?tbl ?req) = (Header ?req)(''Host'' \<mapsto> [''www.xxx.com''],
         ''User-Agent'' \<mapsto> [user_agent], ''Referer'' \<mapsto> [''https://www.xxx.com''],
         ''Accept-Encoding'' := None, ''If-Modified-Since'' := None)"
    by blast+
  have elems: "path_elements ''cdn/media'' @ path_elements ''video.mp4'' =
      [''cdn'', ''media'', ''video.mp4'']"
    by (simp add: path_elements_def)
  then have nodots: "''.'' \<notin> set (path_elements ''cdn/media'' @ path_elements ''video.mp4'')"
    "''..'' \<notin> set (path_elements ''cdn/media'' @ path_elements ''video.mp4'')"
    by simp_all
  from Director_rewrites_matched [of ?tbl ?req "''cdn/media''" "''video.mp4''"] found nodots
  have "URL_Path (Director_main ?tbl ?req) =
      rooted_path (path_elements ''cdn/media'' @ path_elements ''video.mp4'')"
    by blast
  then have plain: "URL_Path (Director_main ?tbl ?req) = rooted_path [''cdn'', ''media'', ''video.mp4'']"
    by (simp only: elems)
  have root: "rooted_path [''cdn'', ''media'', ''video.mp4''] = ''/cdn/media/video.mp4''"
    by (simp add: rooted_path_def)
  have "URL_Path (Director_main ?tbl ?req) = ''/cdn/media/video.mp4''"
    by (simp only: fields Join_example)
  with fields(1,2,4) found' elems plain root show ?thesis
    by simp
qed


section \<open>Properties of the response shaper\<close>

lemma isChunked_iff: "isChunked encodings \<longleftrightarrow> ''chunked'' \<in> set encodings"
  by (induction encodings) auto

text \<open>
  Claim C7. Whatever the upstream response holds under \<open>Access-Control-Allow-Origin\<close>
  (another value, the same value, or nothing), the response that leaves the shaper of
  each variant holds exactly the one value \<open>*\<close> there.
\<close>

theorem ModifyResponse_sets_CORS:
  "RespHeader (ModifyResponse_main resp) ''Access-Control-Allow-Origin'' = Some [''*''] \<and>
   RespHeader (ModifyResponse_part resp) ''Access-Control-Allow-Origin'' = Some [''*''] \<and>
   Header_Get (RespHeader (ModifyResponse_main resp)) ''Access-Control-Allow-Origin'' = ''*'' \<and>
   Header_Get (RespHeader (ModifyResponse_part resp)) ''Access-Control-Allow-Origin'' = ''*''"
  by (simp add: ModifyResponse_main_def ModifyResponse_part_def Let_def Header_Set_def
      Header_Get_def)

text \<open>
  Claim C2, as the code has it. In \<open>part_001\<close> and \<open>part_002\<close>: if the \<open>Content-Type\<close> is
  one of \<open>video/mp4\<close>, \<open>video/webm\<close>, \<open>application/octet-stream\<close>, or the content length is
  at least 1048576, and \<open>chunked\<close> is not among the transfer encodings, then the shaper
  removes \<open>Content-Length\<close> and sets the transfer encoding to \<open>chunked\<close>; otherwise it
  leaves \<open>Content-Length\<close> and the transfer encoding as they were. The shaper of
  \<open>main.go\<close> has no such policy: it leaves both as they were for every response.
\<close>

theorem ModifyResponse_chunk_policy:
  "(if (Header_Get (RespHeader resp) ''Content-Type'' = ''video/mp4'' \<or>
        Header_Get (RespHeader resp) ''Content-Type'' = ''video/webm'' \<or>
        Header_Get (RespHeader resp) ''Content-Type'' = ''application/octet-stream'' \<or>
        ContentLength resp \<ge> 1048576) \<and>
       ''chunked'' \<notin> set (TransferEncoding resp)
    then RespHeader (ModifyResponse_part resp) ''Content-Length'' = None \<and>
         TransferEncoding (ModifyResponse_part resp) = [''chunked'']
    else RespHeader (ModifyResponse_part resp) ''Content-Length'' = RespHeader resp ''Content-Length'' \<and>
         TransferEncoding (ModifyResponse_part resp) = TransferEncoding resp) \<and>
   RespHeader (ModifyResponse_main resp) ''Content-Length'' = RespHeader resp ''Content-Length'' \<and>
   TransferEncoding (ModifyResponse_main resp) = TransferEncoding resp"
  by (simp add: ModifyResponse_main_def ModifyResponse_part_def Let_def Header_Set_def
      Header_Del_def isChunked_iff)

theorem ModifyResponse_chunk_policy_witness:
  "RespHeader (ModifyResponse_part
      \<lparr>StatusCode = 200,
       RespHeader = [''Content-Type'' \<mapsto> [''video/mp4''], ''Content-Length'' \<mapsto> [''5000'']],
       ContentLength = 5000, TransferEncoding = []\<rparr>) ''Content-Length'' = None \<and>
   TransferEncoding (ModifyResponse_part
      \<lparr>StatusCode = 200,
       RespHeader = [''Content-Type'' \<mapsto> [''video/mp4''], ''Content-Length'' \<mapsto> [''5000'']],
       ContentLength = 5000, TransferEncoding = []\<rparr>) = [''chunked''] \<and>
   RespHeader (ModifyResponse_part
      \<lparr>StatusCode = 200,
       RespHeader = [''Content-Type'' \<mapsto> [''text/plain''], ''Content-Length'' \<mapsto> [''500000'']],
       ContentLength = 500000, TransferEncoding = []\<rparr>) ''Content-Length'' = Some [''500000''] \<and>
   RespHeader (ModifyResponse_part
      \<lparr>StatusCode = 200,
       RespHeader = [''Content-Type'' \<mapsto> [''text/plain''], ''Content-Length'' \<mapsto> [''1048576'']],
       ContentLength = 1048576, TransferEncoding = []\<rparr>) ''Content-Length'' = None \<and>
   RespHeader (ModifyResponse_part
      \<lparr>StatusCode = 200,
       RespHeader = [''Content-Type'' \<mapsto> [''video/mp4''], ''Content-Length'' \<mapsto> [''5000'']],
       ContentLength = 5000, TransferEncoding = [''chunked'']\<rparr>) ''Content-Length'' = Some [''5000'']"
  using
    ModifyResponse_chunk_policy [of "\<lparr>StatusCode = 200,
       RespHeader = [''Content-Type'' \<mapsto> [''video/mp4''], ''Content-Length'' \<mapsto> [''5000'']],
       ContentLength = 5000, TransferEncoding = []\<rparr>"]
    ModifyResponse_chunk_policy [of "\<lparr>StatusCode = 200,
       RespHeader = [''Content-Type'' \<mapsto> [''text/plain''], ''Content-Length'' \<mapsto> [''500000'']],
       ContentLength = 500000, TransferEncoding = []\<rparr>"]
    ModifyResponse_chunk_policy [of "\<lparr>StatusCode = 200,
       RespHeader = [''Content-Type'' \<mapsto> [''text/plain''], ''Content-Length'' \<mapsto> [''1048576'']],
       ContentLength = 1048576, TransferEncoding = []\<rparr>"]
    ModifyResponse_chunk_policy [of "\<lparr>StatusCode = 200,
       RespHeader = [''Content-Type'' \<mapsto> [''video/mp4''], ''Content-Length'' \<mapsto> [''5000'']],
       ContentLength = 5000, TransferEncoding = [''chunked'']\<rparr>"]
  by (simp add: Header_Get_def)

text \<open>
  The claim as written fails on \<open>main.go\<close>: a \<open>video/mp4\<close> response that is not chunked
  leaves its shaper with \<open>Content-Length\<close> in place and no transfer encoding.
\<close>

theorem ModifyResponse_main_keeps_length:
  "RespHeader (ModifyResponse_main
      \<lparr>StatusCode = 200,
       RespHeader = [''Content-Type'' \<mapsto> [''video/mp4''], ''Content-Length'' \<mapsto> [''5000'']],
       ContentLength = 5000, TransferEncoding = []\<rparr>) ''Content-Length'' = Some [''5000''] \<and>
   TransferEncoding (ModifyResponse_main
      \<lparr>StatusCode = 200,
       RespHeader = [''Content-Type'' \<mapsto> [''video/mp4''], ''Content-Length'' \<mapsto> [''5000'']],
       ContentLength = 5000, TransferEncoding = []\<rparr>) \<noteq> [''chunked'']"
  by (simp add: ModifyResponse_main_def Header_Set_def)

section \<open>Properties of the handler\<close>

lemma handler_main_NotFound_iff:
  "handler_main tbl r = NotFound \<longleftrightarrow> Header_Get (Header r) ''X-Proxy-Invalid'' = ''1''"
  by (simp add: handler_main_def proxy_ServeHTTP_def)

lemma handler_part001_NotFound_iff:
  "handler_part001 tbl r = NotFound \<longleftrightarrow> Header_Get (Header r) ''X-Proxy-Invalid'' = ''1''"
  by (simp add: handler_part001_def proxy_ServeHTTP_def)

lemma handler_part002_NotFound_iff:
  "handler_part002 tbl r = NotFound \<longleftrightarrow> first_segment (URL_Path r) \<notin> dom tbl"
  by (auto simp: handler_part002_def proxy_ServeHTTP_def findRoute_parts split: option.splits)

lemma Director_main_unmatched:
  "first_segment (URL_Path r) \<notin> dom tbl \<Longrightarrow>
     Director_main tbl r = r\<lparr>Header := (Header r)(''X-Proxy-Invalid'' \<mapsto> [''1''])\<rparr>"
  by (auto simp: Director_main_def findRoute_parts Header_Set_def split: option.splits)

text \<open>
  Claim C1, evaluated where the code departs from it. With the table
  \<open>{"media": "cdn/media"}\<close>, the request \<open>GET /unknown/x\<close> that carries no header has a
  first segment that is not a key. The handlers of \<open>main.go\<close> and \<open>part_001\<close> do not answer
  not-found: they call \<open>proxy.ServeHTTP\<close>, whose Director marks the outgoing copy with
  \<open>X-Proxy-Invalid: 1\<close> and leaves its URL as it was, and that copy goes to the transport.
  The handler of \<open>part_002\<close> answers not-found.
\<close>

theorem handler_unmatched_request:
  "handler_main [''media'' \<mapsto> ''cdn/media'']
     \<lparr>Method = ''GET'', URL_Scheme = [], URL_Host = [], URL_Path = ''/unknown/x'',
      Host = ''proxy.example:8443'', Header = Map.empty\<rparr> =
   Dispatched
     \<lparr>Method = ''GET'', URL_Scheme = [], URL_Host = [], URL_Path = ''/unknown/x'',
      Host = ''proxy.example:8443'', Header = [''X-Proxy-Invalid'' \<mapsto> [''1'']]\<rparr> \<and>
   handler_part001 [''media'' \<mapsto> ''cdn/media'']
     \<lparr>Method = ''GET'', URL_Scheme = [], URL_Host = [], URL_Path = ''/unknown/x'',
      Host = ''proxy.example:8443'', Header = Map.empty\<rparr> =
   Dispatched
     \<lparr>Method = ''GET'', URL_Scheme = [], URL_Host = [], URL_Path = ''/unknown/x'',
      Host = ''proxy.example:8443'', Header = [''X-Proxy-Invalid'' \<mapsto> [''1'']]\<rparr> \<and>
   handler_part002 [''media'' \<mapsto> ''cdn/media'']
     \<lparr>Method = ''GET'', URL_Scheme = [], URL_Host = [], URL_Path = ''/unknown/x'',
      Host = ''proxy.example:8443'', Header = Map.empty\<rparr> = NotFound \<and>
   first_segment ''/unknown/x'' \<notin> dom [''media'' \<mapsto> ''cdn/media'']"
  by (simp add: handler_main_def handler_part001_def handler_part002_def proxy_ServeHTTP_def
      Director_main_def Director_part001_def Header_Get_def Header_Set_def findRoute_parts
      first_segment_def strip_leading_slash_def)

text \<open>
  Claim C9. In \<open>main.go\<close> and \<open>part_001\<close>, an inbound request whose first
  \<open>X-Proxy-Invalid\<close> value is \<open>1\<close> is answered with not-found by the handler, which
  returns before \<open>proxy.ServeHTTP\<close> and so before any route lookup: the answer is the
  same for every route table, also one that holds the first segment of the path.
\<close>

theorem handler_rejects_marked_request:
  "Header r ''X-Proxy-Invalid'' = Some (''1'' # vs) \<Longrightarrow>
     handler_main tbl r = NotFound \<and> handler_part001 tbl r = NotFound"
  by (simp add: handler_main_def handler_part001_def Header_Get_def)

theorem handler_rejects_marked_request_witness:
  "handler_main [''media'' \<mapsto> ''cdn/media'']
     \<lparr>Method = ''GET'', URL_Scheme = [], URL_Host = [], URL_Path = ''/media/video.mp4'',
      Host = ''proxy.example:8443'', Header = [''X-Proxy-Invalid'' \<mapsto> [''1'']]\<rparr> = NotFound \<and>
   handler_part001 [''media'' \<mapsto> ''cdn/media'']
     \<lparr>Method = ''GET'', URL_Scheme = [], URL_Host = [], URL_Path = ''/media/video.mp4'',
      Host = ''proxy.example:8443'', Header = [''X-Proxy-Invalid'' \<mapsto> [''1'']]\<rparr> = NotFound \<and>
   findRoute [''media'' \<mapsto> ''cdn/media''] ''/media/video.mp4'' = (''cdn/media'', ''video.mp4'', True)"
proof -
  have found: "findRoute [''media'' \<mapsto> ''cdn/media''] ''/media/video.mp4'' =
      (''cdn/media'', ''video.mp4'', True)"
    by (simp add: findRoute_parts first_segment_def remainder_after_segment_def
        strip_leading_slash_def)
  from handler_rejects_marked_request
    [of "\<lparr>Method = ''GET'', URL_Scheme = [], URL_Host = [], URL_Path = ''/media/video.mp4'',
      Host = ''proxy.example:8443'', Header = [''X-Proxy-Invalid'' \<mapsto> [''1'']]\<rparr>" "[]"
      "[''media'' \<mapsto> ''cdn/media'']"] found
  show ?thesis by simp
qed

section \<open>Properties of the buffer pool\<close>





lemma pool_inv_new_main: "pool_inv_main (newBufferPool_main sz)"
  by (simp add: pool_inv_main_def newBufferPool_main_def)





lemma pool_inv_Put_main:
  "pool_inv_main b \<Longrightarrow> Put_main b x = Some b' \<Longrightarrow> pool_inv_main b'"
  by (cases "buf_cap x = bp_size b")
     (auto simp: Put_main_def reslice_def pool_Put_def pool_inv_main_def Let_def
       split: if_splits)

lemma pool_inv_new_part: "pool_inv_part (newBufferPool_part bufferSize_part)"
  by (simp add: pool_inv_part_def newBufferPool_part_def)




lemma pool_inv_Put_part:
  "pool_inv_part p \<Longrightarrow> Put_part p x = Some p' \<Longrightarrow> pool_inv_part p'"
  by (auto simp: Put_part_def reslice_def pool_Put_def pool_inv_part_def split: if_splits)




end
